theory Spec2Isabelle
  imports Main "HOL-Library.Sublist" "HOL-Library.Char_ord" "HOL-Library.List_Lexorder"
    "HOL-Library.Multiset"
begin

section \<open>pyLaunchd: the service-listing pipeline of \<^verbatim>\<open>pylaunchd_gui.py\<close>\<close>

text \<open>
  The development embeds the three methods of \<^verbatim>\<open>pylaunchd_gui.py\<close> that make up the
  listing pipeline: \<^verbatim>\<open>MainWindow.load_data_launchctl\<close> (with its callers
  \<^verbatim>\<open>__init__\<close> and \<^verbatim>\<open>initialize_data\<close>), \<^verbatim>\<open>MainWindow.on_search_changed\<close> and
  \<^verbatim>\<open>CustomTableModel.sort\<close>.

  Python strings are modelled as \<^typ>\<open>string\<close>, one \<^typ>\<open>char\<close> per code point, so the
  model covers text whose code points are below 256. The external tool behind
  \<^verbatim>\<open>MainWindow.exec\<close> is a parameter \<open>exec\<close> that maps an argument vector to the
  decoded standard output; the user id of \<^verbatim>\<open>os.getuid()\<close> is a parameter \<open>uid\<close>.
  What the tool writes to its error stream only opens a message box, and the signals
  sent to the table view only repaint it; neither is part of the state here.
\<close>

subsection \<open>Python string primitives\<close>

datatype error = IndexError

definition NL :: char where
  "NL = CHR 0x0A"

definition TAB :: char where
  "TAB = CHR 0x09"

text \<open>\<^verbatim>\<open>str.lower()\<close> on code points below 256: the letters A-Z and the upper-case
  letters of Latin-1 (0xC0-0xDE without the multiplication sign 0xD7) move up by 32.\<close>

definition lower_char :: "char \<Rightarrow> char" where
  "lower_char c =
     (let n = (of_char c :: nat)
      in if (65 \<le> n \<and> n \<le> 90) \<or> (192 \<le> n \<and> n \<le> 222 \<and> n \<noteq> 215)
         then char_of (n + 32) else c)"

definition lower :: "string \<Rightarrow> string" where
  "lower s = map lower_char s"

text \<open>\<^verbatim>\<open>a in b\<close> on strings, \<open>a\<close> occurs in \<open>b\<close> as a contiguous piece, is
  \<^term>\<open>sublist a b\<close> of the library; \<^verbatim>\<open>s.startswith(p)\<close> is \<^term>\<open>prefix p s\<close>.\<close>

text \<open>\<^verbatim>\<open>s.split(sep)\<close> for a non-empty separator: the pieces between the leftmost
  non-overlapping occurrences of \<open>sep\<close>. The accumulator holds the current piece reversed.\<close>

function split_aux :: "string \<Rightarrow> string \<Rightarrow> string \<Rightarrow> string list" where
  "split_aux sep acc s =
     (if sep \<noteq> [] \<and> prefix sep s then rev acc # split_aux sep [] (drop (length sep) s)
      else (case s of [] \<Rightarrow> [rev acc] | c # cs \<Rightarrow> split_aux sep (c # acc) cs))"
  by pat_completeness auto
termination
proof (relation "measure (\<lambda>(sep, acc, s). length s)")
  show "wf (measure (\<lambda>(sep, acc, s). length s))" by simp
next
  fix sep acc s :: string
  assume "sep \<noteq> [] \<and> prefix sep s"
  then have "0 < length sep" and "length sep \<le> length s"
    by (auto simp: prefix_def)
  then have "length s - length sep < length s"
    by arith
  then show "((sep, [], drop (length sep) s), (sep, acc, s)) \<in> measure (\<lambda>(sep, acc, s). length s)"
    by simp
next
  fix sep acc s :: string and c cs
  assume "s = c # cs"
  then show "((sep, c # acc, cs), (sep, acc, s)) \<in> measure (\<lambda>(sep, acc, s). length s)"
    by simp
qed

declare split_aux.simps [simp del]

definition split_str :: "string \<Rightarrow> string \<Rightarrow> string list" where
  "split_str s sep = split_aux sep [] s"

text \<open>\<^verbatim>\<open>str.splitlines()\<close>: the line boundaries of Python below code point 256 are
  LF, CR, CR LF, VT, FF, FS, GS, RS and NEL; a trailing piece is a line only when it is
  not empty.\<close>

definition is_linebreak :: "char \<Rightarrow> bool" where
  "is_linebreak c = ((of_char c :: nat) \<in> {10, 11, 12, 13, 28, 29, 30, 133})"

fun splitlines_aux :: "string \<Rightarrow> string \<Rightarrow> string list" where
  "splitlines_aux acc [] = (if acc = [] then [] else [rev acc])"
| "splitlines_aux acc [c] = (if is_linebreak c then [rev acc] else [rev (c # acc)])"
| "splitlines_aux acc (c # d # cs) =
     (if c = CHR 0x0D \<and> d = NL then rev acc # splitlines_aux [] cs
      else if is_linebreak c then rev acc # splitlines_aux [] (d # cs)
      else splitlines_aux (c # acc) (d # cs))"

definition splitlines :: "string \<Rightarrow> string list" where
  "splitlines s = splitlines_aux [] s"

text \<open>\<^verbatim>\<open>str(n)\<close> for a non-negative integer, as the f-string \<^verbatim>\<open>f'/{uid}'\<close> formats it.\<close>

fun str_nat :: "nat \<Rightarrow> string" where
  "str_nat n = (if n < 10 then [char_of (48 + n)]
                else str_nat (n div 10) @ [char_of (48 + n mod 10)])"

text \<open>\<^verbatim>\<open>xs[i]\<close>: negative indices count from the end, anything out of range raises.\<close>

definition getitem :: "'a list \<Rightarrow> int \<Rightarrow> error + 'a" where
  "getitem xs i =
     (if 0 \<le> i \<and> i < int (length xs) then Inr (xs ! nat i)
      else if i < 0 \<and> - int (length xs) \<le> i then Inr (xs ! nat (int (length xs) + i))
      else Inl IndexError)"

subsection \<open>The two regular expressions\<close>

text \<open>
  \<^verbatim>\<open>re.findall('^\s+path =\s(.*$)', details, re.MULTILINE)\<close> and its twin for
  \<^verbatim>\<open>state\<close> differ in the key word only. \<^verbatim>\<open>\s\<close> matches the white space of
  Python strings (below 256: TAB, LF, VT, FF, CR, FS, GS, RS, US, space, NEL, NBSP), so it
  matches a line feed too; \<^verbatim>\<open>.\<close> matches everything but a line feed; with
  \<^verbatim>\<open>re.MULTILINE\<close>, \<^verbatim>\<open>^\<close> matches at the start of the text and after every line
  feed, and \<^verbatim>\<open>$\<close> at the end of the text and before every line feed.

  \<open>match_here key s\<close> is the match of \<^verbatim>\<open>\s+KEY =\s(.*$)\<close> at the start of \<open>s\<close>. The
  key word starts with a letter, so the greedy \<^verbatim>\<open>\s+\<close> has to take the whole run of
  white space; the greedy \<^verbatim>\<open>.*\<close> runs to the end of the line, where \<^verbatim>\<open>$\<close> holds.
  The result is the group, whether the match ends right after a line feed, and the
  text after the match.
\<close>

definition is_space :: "char \<Rightarrow> bool" where
  "is_space c = ((of_char c :: nat) \<in> {9, 10, 11, 12, 13, 28, 29, 30, 31, 32, 133, 160})"

definition match_here :: "string \<Rightarrow> string \<Rightarrow> (string \<times> bool \<times> string) option" where
  "match_here key s =
     (let ws = takeWhile is_space s; r = dropWhile is_space s
      in if ws = [] \<or> \<not> prefix (key @ '' ='') r then None
         else (case drop (length (key @ '' ='')) r of
                 [] \<Rightarrow> None
               | c # t \<Rightarrow>
                   if is_space c
                   then (let g = takeWhile (\<lambda>x. x \<noteq> NL) t
                         in Some (g, g = [] \<and> c = NL, dropWhile (\<lambda>x. x \<noteq> NL) t))
                   else None))"

text \<open>\<open>findall_from key bol s\<close> lists the groups of the non-overlapping matches in \<open>s\<close>,
  leftmost first; \<open>bol\<close> says whether \<open>s\<close> starts at the beginning of a line. After a
  match the search goes on where the match ended.\<close>

function findall_from :: "string \<Rightarrow> bool \<Rightarrow> string \<Rightarrow> string list" where
  "findall_from key bol s =
     (case (if bol then match_here key s else None) of
        Some (g, b, rest) \<Rightarrow> g # findall_from key b rest
      | None \<Rightarrow> (case s of [] \<Rightarrow> [] | c # cs \<Rightarrow> findall_from key (c = NL) cs))"
  by pat_completeness auto
termination
proof (relation "measure (\<lambda>(key, bol, s). length s)")
  show "wf (measure (\<lambda>(key, bol, s). length s))" by simp
next
  fix key s :: string and bol c cs
  assume "s = c # cs"
  then show "((key, c = NL, cs), (key, bol, s)) \<in> measure (\<lambda>(key, bol, s). length s)"
    by simp
next
  fix key s :: string and bol x2 g y b rest
  assume "(if bol then match_here key s else None) = Some x2" "(g, y) = x2" "(b, rest) = y"
  then have m: "match_here key s = Some (g, b, rest)"
    by (auto split: if_splits)
  let ?r = "dropWhile is_space s"
  from m obtain c t where ct: "drop (length (key @ '' ='')) ?r = c # t"
    and rest: "rest = dropWhile (\<lambda>x. x \<noteq> NL) t"
    by (auto simp: match_here_def Let_def split: if_splits list.splits)
  have "length rest \<le> length t"
    unfolding rest by (rule length_dropWhile_le)
  also have "length t < length (drop (length (key @ '' ='')) ?r)"
    unfolding ct by simp
  also have "\<dots> \<le> length ?r"
    by simp
  also have "\<dots> \<le> length s"
    by (rule length_dropWhile_le)
  finally have "length rest < length s" .
  then show "((key, b, rest), (key, bol, s)) \<in> measure (\<lambda>(key, bol, s). length s)"
    by simp
qed

declare findall_from.simps [simp del]

definition findall :: "string \<Rightarrow> string \<Rightarrow> string list" where
  "findall key details = findall_from key True details"

subsection \<open>Rows and the window state\<close>

text \<open>A row of the table is the three-element list \<^verbatim>\<open>[label, path, state]\<close> that
  \<^verbatim>\<open>load_data_launchctl\<close> appends; \<^verbatim>\<open>d[0]\<close> is \<open>label d\<close>, \<^verbatim>\<open>d[1]\<close> is
  \<open>path d\<close>. \<^verbatim>\<open>operator.itemgetter(ncol)\<close> indexes that list. The three methods
  never write into a row, so a row is a value.\<close>

record job =
  label :: string
  path :: string
  state :: string

definition itemgetter :: "int \<Rightarrow> job \<Rightarrow> error + string" where
  "itemgetter ncol d = getitem [label d, path d, state d] ncol"

datatype sort_order = AscendingOrder | DescendingOrder

text \<open>
  The window holds two list objects: \<^verbatim>\<open>self.data\<close>, which the table model shares as
  \<^verbatim>\<open>arraydata\<close>, and \<^verbatim>\<open>self.data_all\<close>. The methods write through slice
  assignment (\<^verbatim>\<open>xs[:] = ys\<close>), which replaces the contents of an object and keeps its
  identity, so the state has a store of list objects and the three attributes are
  references into it. \<^verbatim>\<open>self.jobs\<close> is the dictionary from label to detail text.
\<close>

type_synonym ref = nat

record main_window =
  heap :: "ref \<Rightarrow> job list"
  data :: ref
  data_all :: ref
  arraydata :: ref
  jobs :: "string \<rightharpoonup> string"
  domain_id :: int
  last_saved_sort_column :: "int option"
  last_saved_sort_order :: "sort_order option"

definition LAUNCHD_DOMAINS :: "string list" where
  "LAUNCHD_DOMAINS = [''User'', ''System'', ''GUI'']"

definition DEFAULT_DOMAIN :: string where
  "DEFAULT_DOMAIN = LAUNCHD_DOMAINS ! 2"

subsection \<open>\<^verbatim>\<open>MainWindow.load_data_launchctl\<close>\<close>

text \<open>The query target \<^verbatim>\<open>f'{domain}{user_identifier}'\<close> for the entry \<open>name\<close> of
  \<^verbatim>\<open>LAUNCHD_DOMAINS\<close>: \<^verbatim>\<open>domain = name.lower() or DEFAULT_DOMAIN\<close>, and the user id
  is left out for \<^verbatim>\<open>system\<close>.\<close>

definition target_of :: "nat \<Rightarrow> string \<Rightarrow> string" where
  "target_of uid name =
     (let domain = (if lower name \<noteq> [] then lower name else DEFAULT_DOMAIN);
          user_identifier = (if domain = ''system'' then [] else ''/'' @ str_nat uid)
      in domain @ user_identifier)"

text \<open>\<^verbatim>\<open>gui_processes.split('services = {\n')[1].split('\t}')[0]\<close>. The index 1
  raises \<^verbatim>\<open>IndexError\<close> when the marker does not occur. \<^verbatim>\<open>split\<close> never returns
  the empty list, so \<^verbatim>\<open>[0]\<close> on its result is \<open>hd\<close> (and \<^verbatim>\<open>[-1]\<close> below is
  \<open>last\<close>).\<close>

definition services_of :: "string \<Rightarrow> error + string" where
  "services_of gui_processes =
     (case getitem (split_str gui_processes (''services = {'' @ [NL])) 1 of
        Inl e \<Rightarrow> Inl e
      | Inr rest \<Rightarrow> Inr (hd (split_str rest (TAB # ''}''))))"

text \<open>The body of the loop \<^verbatim>\<open>for line in services.splitlines()\<close>, on the pair of
  \<^verbatim>\<open>data\<close> and \<^verbatim>\<open>self.jobs\<close>. \<open>target\<close> is the query target of the domain.
  \<^verbatim>\<open>len(paths) and paths[0] or None\<close> is \<^verbatim>\<open>None\<close> when there is no match and when
  the first group is empty; \<^verbatim>\<open>len(states) and states[0] or ''\<close> likewise.\<close>

definition load_line ::
  "(string list \<Rightarrow> string) \<Rightarrow> string \<Rightarrow> string \<Rightarrow>
   job list \<times> (string \<rightharpoonup> string) \<Rightarrow> job list \<times> (string \<rightharpoonup> string)" where
  "load_line exec target line s =
     (let dat = fst s; jbs = snd s;
          lbl = last (split_str line [TAB])
      in if lbl \<noteq> [] then
           (let details = exec [''launchctl'', ''print'', target @ ''/'' @ lbl];
                jbs' = jbs(lbl \<mapsto> details);
                paths = findall ''path'' details;
                pth = (case paths of [] \<Rightarrow> None | p # _ \<Rightarrow> if p \<noteq> [] then Some p else None)
            in case pth of
                 None \<Rightarrow> (dat, jbs')
               | Some p \<Rightarrow>
                   if prefix ''/'' p then
                     (let states = findall ''state'' details;
                          ste = (case states of [] \<Rightarrow> [] | t # _ \<Rightarrow> if t \<noteq> [] then t else [])
                      in (dat @ [\<lparr>label = lbl, path = p, state = ste\<rparr>], jbs'))
                   else (dat, jbs'))
         else (dat, jbs))"

fun load_lines ::
  "(string list \<Rightarrow> string) \<Rightarrow> string \<Rightarrow> string list \<Rightarrow>
   job list \<times> (string \<rightharpoonup> string) \<Rightarrow> job list \<times> (string \<rightharpoonup> string)" where
  "load_lines exec target [] s = s"
| "load_lines exec target (line # lines) s =
     load_lines exec target lines (load_line exec target line s)"

text \<open>The method itself; \<open>idx\<close> is its argument \<^verbatim>\<open>domain_id\<close> and \<open>jbs\<close> the
  dictionary \<^verbatim>\<open>self.jobs\<close> at the call. It returns \<^verbatim>\<open>data\<close> and leaves the new
  dictionary behind. It raises \<^verbatim>\<open>IndexError\<close> from \<^verbatim>\<open>LAUNCHD_DOMAINS[domain_id]\<close>
  and from the index 1 after the first \<^verbatim>\<open>split\<close>; both come before the loop, so an
  error leaves \<^verbatim>\<open>self.jobs\<close> as it was.\<close>

definition load_data_launchctl ::
  "(string list \<Rightarrow> string) \<Rightarrow> nat \<Rightarrow> int \<Rightarrow> (string \<rightharpoonup> string) \<Rightarrow>
   error + job list \<times> (string \<rightharpoonup> string)" where
  "load_data_launchctl exec uid idx jbs =
     (case getitem LAUNCHD_DOMAINS idx of
        Inl e \<Rightarrow> Inl e
      | Inr name \<Rightarrow>
          (let gui_processes = exec [''launchctl'', ''print'', target_of uid name]
           in case services_of gui_processes of
                Inl e \<Rightarrow> Inl e
              | Inr services \<Rightarrow>
                  Inr (load_lines exec (target_of uid name) (splitlines services) ([], jbs))))"

text \<open>\<^verbatim>\<open>MainWindow.__init__\<close>, as far as the pipeline goes: \<^verbatim>\<open>self.jobs = {}\<close>, the
  first load (an error is not caught here), a fresh list object for \<^verbatim>\<open>self.data_all\<close>
  filled from \<^verbatim>\<open>self.data\<close>, and the table model built on \<^verbatim>\<open>self.data\<close> itself.\<close>

definition no_lists :: "ref \<Rightarrow> job list" where
  "no_lists r = []"

definition init :: "(string list \<Rightarrow> string) \<Rightarrow> nat \<Rightarrow> int \<Rightarrow> error + main_window" where
  "init exec uid idx =
     (case load_data_launchctl exec uid idx Map.empty of
        Inl e \<Rightarrow> Inl e
      | Inr (d, j) \<Rightarrow>
          Inr \<lparr>heap = no_lists(0 := d, 1 := d), data = 0, data_all = 1, arraydata = 0,
               jobs = j, domain_id = idx,
               last_saved_sort_column = None, last_saved_sort_order = None\<rparr>)"

text \<open>\<^verbatim>\<open>MainWindow.initialize_data\<close>: \<^verbatim>\<open>self.data[:] = ...\<close>, then
  \<^verbatim>\<open>self.data_all[:] = self.data\<close>. \<^verbatim>\<open>except Exception\<close> swallows the error of the
  load (it is printed), and nothing has been written by then.\<close>

definition initialize_data ::
  "(string list \<Rightarrow> string) \<Rightarrow> nat \<Rightarrow> int \<Rightarrow> main_window \<Rightarrow> main_window" where
  "initialize_data exec uid idx w =
     (case load_data_launchctl exec uid idx (jobs w) of
        Inl e \<Rightarrow> w
      | Inr (d, j) \<Rightarrow>
          (let h1 = (heap w)(data w := d);
               h2 = h1(data_all w := h1 (data w))
           in w\<lparr>heap := h2, jobs := j\<rparr>))"

subsection \<open>\<^verbatim>\<open>MainWindow.on_search_changed\<close>\<close>

text \<open>The comprehension keeps \<open>d\<close> when
  \<^verbatim>\<open>text.lower() in d[0].lower() or text in d[1].lower()\<close>. With an empty text
  \<^verbatim>\<open>filtered_data\<close> is \<^verbatim>\<open>self.data_all\<close> itself; the slice assignment copies its
  contents into the object behind \<^verbatim>\<open>self.data\<close>.\<close>

definition keep :: "string \<Rightarrow> job \<Rightarrow> bool" where
  "keep text d = (sublist (lower text) (lower (label d)) \<or> sublist text (lower (path d)))"

definition on_search_changed :: "string \<Rightarrow> main_window \<Rightarrow> main_window" where
  "on_search_changed text w =
     (let filtered_data = (if text \<noteq> [] then filter (keep text) (heap w (data_all w))
                           else heap w (data_all w))
      in w\<lparr>heap := (heap w)(data w := filtered_data)\<rparr>)"

subsection \<open>\<^verbatim>\<open>CustomTableModel.sort\<close>\<close>

text \<open>\<^verbatim>\<open>sorted(xs, key=k, reverse=r)\<close>: the keys are computed first, one per element,
  and the first failing key is the error of the call; then the pairs of key and element
  are sorted by key with a stable sort. With \<^verbatim>\<open>reverse\<close> the list is reversed before
  and after the sort, which keeps equal keys in their original order. Strings compare
  by code point, lexicographically.\<close>

fun keys_of :: "('a \<Rightarrow> error + 'k) \<Rightarrow> 'a list \<Rightarrow> error + 'k list" where
  "keys_of key [] = Inr []"
| "keys_of key (x # xs) =
     (case key x of
        Inl e \<Rightarrow> Inl e
      | Inr k \<Rightarrow> (case keys_of key xs of Inl e \<Rightarrow> Inl e | Inr ks \<Rightarrow> Inr (k # ks)))"

definition sorted_py :: "('a \<Rightarrow> error + string) \<Rightarrow> bool \<Rightarrow> 'a list \<Rightarrow> error + 'a list" where
  "sorted_py key reverse xs =
     (case keys_of key xs of
        Inl e \<Rightarrow> Inl e
      | Inr ks \<Rightarrow>
          (let ps = zip ks xs
           in Inr (map snd (if reverse then rev (sort_key fst (rev ps)) else sort_key fst ps))))"

text \<open>The method sorts the contents of \<^verbatim>\<open>self.arraydata\<close> in place and records column
  and order. \<^verbatim>\<open>reverse=order\<close> is true for \<^verbatim>\<open>Qt.DescendingOrder\<close> (1) and false for
  \<^verbatim>\<open>Qt.AscendingOrder\<close> (0).\<close>

definition sort_model :: "int \<Rightarrow> sort_order \<Rightarrow> main_window \<Rightarrow> error + main_window" where
  "sort_model ncol order w =
     (case sorted_py (itemgetter ncol) (order = DescendingOrder) (heap w (arraydata w)) of
        Inl e \<Rightarrow> Inl e
      | Inr sorted_data \<Rightarrow>
          Inr (w\<lparr>heap := (heap w)(arraydata w := sorted_data),
                 last_saved_sort_column := Some ncol,
                 last_saved_sort_order := Some order\<rparr>))"

subsection \<open>Sequences of filter and sort calls\<close>

datatype call = SetFilter string | SetSort int sort_order

fun step :: "call \<Rightarrow> main_window \<Rightarrow> error + main_window" where
  "step (SetFilter text) w = Inr (on_search_changed text w)"
| "step (SetSort ncol order) w = sort_model ncol order w"

text \<open>A run stops at the first call that raises and returns the state reached, which
  is the state before that call: \<^verbatim>\<open>sorted\<close> raises before anything is written.\<close>

fun run :: "call list \<Rightarrow> main_window \<Rightarrow> main_window \<times> error option" where
  "run [] w = (w, None)"
| "run (c # cs) w = (case step c w of Inl e \<Rightarrow> (w, Some e) | Inr w' \<Rightarrow> run cs w')"

subsection \<open>Notions of the specification\<close>

text \<open>The Snapshot is the contents of \<^verbatim>\<open>self.data_all\<close>, the FilteredView the
  contents of the list the table model shows. A window is well formed when the model
  shows the object \<^verbatim>\<open>self.data\<close> and \<^verbatim>\<open>self.data_all\<close> is another object, as
  \<^verbatim>\<open>__init__\<close> sets them up.\<close>

definition snapshot :: "main_window \<Rightarrow> job list" where
  "snapshot w = heap w (data_all w)"

definition view :: "main_window \<Rightarrow> job list" where
  "view w = heap w (arraydata w)"

definition well_formed :: "main_window \<Rightarrow> bool" where
  "well_formed w = (arraydata w = data w \<and> data_all w \<noteq> data w)"

text \<open>The column of a row that \<^verbatim>\<open>itemgetter\<close> reads for an index from -3 to 2.\<close>

definition column :: "int \<Rightarrow> job \<Rightarrow> string" where
  "column ncol d = [label d, path d, state d] ! nat (if ncol < 0 then 3 + ncol else ncol)"

text \<open>\<open>s\<close> contains \<open>t\<close>, as it stands and without regard to case.\<close>

definition contains :: "string \<Rightarrow> string \<Rightarrow> bool" where
  "contains s t = sublist t s"

definition contains_ci :: "string \<Rightarrow> string \<Rightarrow> bool" where
  "contains_ci s t = sublist (lower t) (lower s)"

text \<open>The labels of a services block, in listing order: the last tab-separated field
  of every line, where it is not empty. The detail text of a label is what the tool
  prints for the target of the domain followed by the label.\<close>

definition listed_labels :: "string \<Rightarrow> string list" where
  "listed_labels services =
     filter (\<lambda>lbl. lbl \<noteq> []) (map (\<lambda>line. last (split_str line [TAB])) (splitlines services))"

definition details_of :: "(string list \<Rightarrow> string) \<Rightarrow> string \<Rightarrow> string \<Rightarrow> string" where
  "details_of exec target lbl = exec [''launchctl'', ''print'', target @ ''/'' @ lbl]"

definition first_or_empty :: "string list \<Rightarrow> string" where
  "first_or_empty xs = (case xs of [] \<Rightarrow> [] | x # _ \<Rightarrow> x)"

text \<open>What one listed label adds to the Snapshot: a row when the first path line of its
  detail text gives an absolute path, nothing otherwise.\<close>

definition rows_of :: "(string list \<Rightarrow> string) \<Rightarrow> string \<Rightarrow> string \<Rightarrow> job list" where
  "rows_of exec target lbl =
     (case findall ''path'' (details_of exec target lbl) of
        [] \<Rightarrow> []
      | p # _ \<Rightarrow>
          if prefix ''/'' p
          then [\<lparr>label = lbl, path = p,
                 state = first_or_empty (findall ''state'' (details_of exec target lbl))\<rparr>]
          else [])"

subsection \<open>Example data\<close>

text \<open>The scenario of the specification: one listed job with an absolute path.\<close>

definition listing_one :: string where
  "listing_one =
     ''services = {'' @ [NL, TAB] @ ''1'' @ [TAB] @ ''-'' @ [TAB] @ ''com.a.one'' @ [NL, TAB] @ ''}'' @ [NL]"

definition detail_one :: string where
  "detail_one =
     [TAB] @ ''path = /Library/LaunchAgents/com.a.one.plist'' @ [NL, TAB] @ ''state = running'' @ [NL]"

definition job_one :: job where
  "job_one = \<lparr>label = ''com.a.one'', path = ''/Library/LaunchAgents/com.a.one.plist'',
               state = ''running''\<rparr>"

definition exec_one :: "string list \<Rightarrow> string" where
  "exec_one args =
     (if args = [''launchctl'', ''print'', ''gui/501''] then listing_one
      else if args = [''launchctl'', ''print'', ''gui/501/com.a.one''] then detail_one
      else [])"

text \<open>A domain that lists three jobs: one with an absolute path and no state line, one
  whose path is relative, and one whose detail text has no path line.\<close>

definition listing_three :: string where
  "listing_three =
     ''services = {'' @ [NL, TAB] @ ''0'' @ [TAB] @ ''-'' @ [TAB] @ ''com.b.two''
       @ [NL, TAB] @ ''0'' @ [TAB] @ ''-'' @ [TAB] @ ''com.rel''
       @ [NL, TAB] @ ''0'' @ [TAB] @ ''-'' @ [TAB] @ ''com.nopath'' @ [NL, TAB] @ ''}'' @ [NL]"

definition detail_two :: string where
  "detail_two = [TAB] @ ''path = /Library/LaunchDaemons/com.b.two.plist'' @ [NL]"

definition detail_rel :: string where
  "detail_rel = [TAB] @ ''path = plists/com.rel.plist'' @ [NL, TAB] @ ''state = running'' @ [NL]"

definition detail_nopath :: string where
  "detail_nopath = [TAB] @ ''state = running'' @ [NL]"

definition job_two :: job where
  "job_two = \<lparr>label = ''com.b.two'', path = ''/Library/LaunchDaemons/com.b.two.plist'',
               state = []\<rparr>"

definition exec_three :: "string list \<Rightarrow> string" where
  "exec_three args =
     (if args = [''launchctl'', ''print'', ''system''] then listing_three
      else if args = [''launchctl'', ''print'', ''system/com.b.two''] then detail_two
      else if args = [''launchctl'', ''print'', ''system/com.rel''] then detail_rel
      else if args = [''launchctl'', ''print'', ''system/com.nopath''] then detail_nopath
      else [])"

text \<open>A tool whose output for every query has no services block.\<close>

definition exec_no_marker :: "string list \<Rightarrow> string" where
  "exec_no_marker args = ''gui/501 = {'' @ [NL] @ ''}'' @ [NL]"

text \<open>A tool that lists an empty services block for every domain.\<close>

definition exec_empty :: "string list \<Rightarrow> string" where
  "exec_empty args = ''services = {'' @ [NL, TAB] @ ''}'' @ [NL]"

text \<open>Windows with the two list objects in the places \<^verbatim>\<open>__init__\<close> gives them: one
  after loading the scenario; one that shows three jobs, two of them with the same
  state, in an order that is not sorted by any column; and that one after a click on the
  state column, descending.\<close>

definition window_one :: main_window where
  "window_one =
     \<lparr>heap = no_lists(0 := [job_one], 1 := [job_one]), data = 0, data_all = 1, arraydata = 0,
      jobs = [''com.a.one'' \<mapsto> detail_one], domain_id = 2,
      last_saved_sort_column = None, last_saved_sort_order = None\<rparr>"

definition job_three :: job where
  "job_three = \<lparr>label = ''com.c.three'', path = ''/Library/LaunchAgents/com.c.three.plist'',
                 state = ''running''\<rparr>"

definition window_three :: main_window where
  "window_three =
     \<lparr>heap = no_lists(0 := [job_three, job_two, job_one], 1 := [job_three, job_two, job_one]),
      data = 0, data_all = 1, arraydata = 0,
      jobs = Map.empty, domain_id = 1,
      last_saved_sort_column = None, last_saved_sort_order = None\<rparr>"

definition window_three_sorted :: main_window where
  "window_three_sorted =
     \<lparr>heap = no_lists(0 := [job_three, job_one, job_two], 1 := [job_three, job_two, job_one]),
      data = 0, data_all = 1, arraydata = 0,
      jobs = Map.empty, domain_id = 1,
      last_saved_sort_column = Some 2, last_saved_sort_order = Some DescendingOrder\<rparr>"

text \<open>The services blocks of the two listings.\<close>

definition services_three :: string where
  "services_three = [TAB] @ ''0'' @ [TAB] @ ''-'' @ [TAB] @ ''com.b.two''
       @ [NL, TAB] @ ''0'' @ [TAB] @ ''-'' @ [TAB] @ ''com.rel''
       @ [NL, TAB] @ ''0'' @ [TAB] @ ''-'' @ [TAB] @ ''com.nopath'' @ [NL]"

definition services_one :: string where
  "services_one = [TAB] @ ''1'' @ [TAB] @ ''-'' @ [TAB] @ ''com.a.one'' @ [NL]"

section \<open>Properties\<close>

subsection \<open>Strings\<close>

lemma split_aux_not_Nil: "split_aux sep acc s \<noteq> []"
proof (induction sep acc s rule: split_aux.induct)
  case (1 sep acc s)
  show ?case
    by (subst split_aux.simps) (use 1 in \<open>auto split: list.splits\<close>)
qed

lemma split_aux_no_sep: "\<not> sublist sep s \<Longrightarrow> split_aux sep acc s = [rev acc @ s]"
proof (induction s arbitrary: acc)
  case Nil
  then show ?case by (subst split_aux.simps) auto
next
  case (Cons c cs)
  from Cons.prems have np: "\<not> prefix sep (c # cs)" and ns: "\<not> sublist sep cs"
    by (auto simp: sublist_Cons_right)
  have "split_aux sep acc (c # cs) = split_aux sep (c # acc) cs"
    by (subst split_aux.simps) (use np in simp)
  also have "\<dots> = [rev (c # acc) @ cs]"
    by (rule Cons.IH [OF ns])
  finally show ?case by simp
qed

lemma split_aux_sep: "sublist sep s \<Longrightarrow> sep \<noteq> [] \<Longrightarrow> 2 \<le> length (split_aux sep acc s)"
proof (induction s arbitrary: acc)
  case Nil
  then show ?case by simp
next
  case (Cons c cs)
  show ?case
  proof (cases "prefix sep (c # cs)")
    case True
    then have "split_aux sep acc (c # cs) = rev acc # split_aux sep [] (drop (length sep) (c # cs))"
      by (subst split_aux.simps) (use Cons.prems in simp)
    moreover have "split_aux sep [] (drop (length sep) (c # cs)) \<noteq> []"
      by (rule split_aux_not_Nil)
    ultimately show ?thesis
      by (cases "split_aux sep [] (drop (length sep) (c # cs))") auto
  next
    case False
    with Cons.prems have "sublist sep cs"
      by (auto simp: sublist_Cons_right)
    moreover have "split_aux sep acc (c # cs) = split_aux sep (c # acc) cs"
      by (subst split_aux.simps) (use False in simp)
    ultimately show ?thesis
      using Cons.IH Cons.prems by simp
  qed
qed

lemma lower_char_idem: "lower_char (lower_char c) = lower_char c"
  by (auto simp: lower_char_def Let_def)

lemma services_of_no_marker:
  "\<not> sublist (''services = {'' @ [NL]) out \<Longrightarrow> services_of out = Inl IndexError"
  by (simp add: services_of_def split_str_def split_aux_no_sep getitem_def)

lemma services_of_marker:
  "sublist (''services = {'' @ [NL]) out \<Longrightarrow> \<exists>services. services_of out = Inr services"
  using split_aux_sep [of "''services = {'' @ [NL]" out "[]"]
  by (auto simp add: services_of_def split_str_def getitem_def Let_def)

subsection \<open>The load as a function of the listing\<close>

lemma load_line_eq:
  "load_line exec target line (dat, jbs) =
     (let lbl = last (split_str line [TAB])
      in if lbl = [] then (dat, jbs)
         else (dat @ rows_of exec target lbl, jbs(lbl \<mapsto> details_of exec target lbl)))"
  by (auto simp: load_line_def rows_of_def details_of_def first_or_empty_def Let_def
      split: list.splits)

lemma load_lines_eq:
  "load_lines exec target lines (dat, jbs) =
     (dat @ concat (map (rows_of exec target)
                (filter (\<lambda>lbl. lbl \<noteq> []) (map (\<lambda>line. last (split_str line [TAB])) lines))),
      (\<lambda>lbl. if lbl \<in> set (filter (\<lambda>lbl. lbl \<noteq> []) (map (\<lambda>line. last (split_str line [TAB])) lines))
             then Some (details_of exec target lbl) else jbs lbl))"
proof (induction lines arbitrary: dat jbs)
  case Nil
  show ?case by simp
next
  case (Cons line lines)
  show ?case
    by (auto simp: load_line_eq Cons.IH Let_def fun_eq_iff)
qed

lemma load_data_launchctl_eq:
  assumes "getitem LAUNCHD_DOMAINS idx = Inr name"
      and "services_of (exec [''launchctl'', ''print'', target_of uid name]) = Inr services"
  shows "load_data_launchctl exec uid idx jbs =
           Inr (concat (map (rows_of exec (target_of uid name)) (listed_labels services)),
                (\<lambda>lbl. if lbl \<in> set (listed_labels services)
                       then Some (details_of exec (target_of uid name) lbl) else jbs lbl))"
  using assms by (simp add: load_data_launchctl_def load_lines_eq listed_labels_def)

lemma load_data_launchctl_cases:
  assumes "load_data_launchctl exec uid idx jbs = Inr (snap, jbs')"
  obtains name services where "getitem LAUNCHD_DOMAINS idx = Inr name"
      and "services_of (exec [''launchctl'', ''print'', target_of uid name]) = Inr services"
  using assms by (auto simp: load_data_launchctl_def Let_def split: sum.splits)

lemma rows_of_label: "d \<in> set (rows_of exec target lbl) \<Longrightarrow> label d = lbl"
  by (auto simp: rows_of_def split: list.splits if_splits)

lemma rows_of_path:
  "d \<in> set (rows_of exec target lbl) \<Longrightarrow>
     \<exists>ps. findall ''path'' (details_of exec target lbl) = path d # ps \<and> prefix ''/'' (path d)"
  by (cases "findall ''path'' (details_of exec target lbl)")
     (auto simp: rows_of_def split: if_splits)

lemma rows_of_state:
  "d \<in> set (rows_of exec target lbl) \<Longrightarrow>
     state d = first_or_empty (findall ''state'' (details_of exec target lbl))"
  by (auto simp: rows_of_def split: list.splits if_splits)

text \<open>Facts about the example data.\<close>

lemma getitem_GUI: "getitem LAUNCHD_DOMAINS 2 = Inr ''GUI''"
  by (simp add: getitem_def LAUNCHD_DOMAINS_def)

lemma target_GUI: "target_of 501 ''GUI'' = ''gui/501''"
  by code_simp

lemma no_marker_example:
  "\<not> contains (exec_no_marker [''launchctl'', ''print'', ''gui/501'']) (''services = {'' @ [NL])"
  by code_simp

subsection \<open>Output without a services block\<close>

text \<open>
  Claim C1, as amended. The claim reads: for every domain whose describe output does not
  contain the services-block marker, the load returns an empty Snapshot and raises no
  error. The code has no such case: \<^verbatim>\<open>split('services = {\n')[1]\<close> raises
  \<^verbatim>\<open>IndexError\<close> and the method returns nothing. What holds: whenever the output
  for the domain does not contain the marker, \<^verbatim>\<open>load_data_launchctl\<close> raises
  \<^verbatim>\<open>IndexError\<close> to its caller, and the refreshing caller \<^verbatim>\<open>initialize_data\<close>,
  which catches the error, leaves the window as it was (the previous rows stay).
\<close>

theorem load_without_marker_raises:
  assumes "getitem LAUNCHD_DOMAINS idx = Inr name"
      and "\<not> contains (exec [''launchctl'', ''print'', target_of uid name]) (''services = {'' @ [NL])"
  shows "load_data_launchctl exec uid idx jbs = Inl IndexError \<and>
         initialize_data exec uid idx w = w"
proof -
  from assms(2) have "services_of (exec [''launchctl'', ''print'', target_of uid name]) = Inl IndexError"
    unfolding contains_def by (rule services_of_no_marker)
  with assms(1) have "load_data_launchctl exec uid idx jbs' = Inl IndexError" for jbs'
    by (simp add: load_data_launchctl_def)
  then show ?thesis
    by (simp add: initialize_data_def)
qed

text \<open>The theorem at the tool without a services block, on the window of the scenario.\<close>

theorem load_without_marker_raises_witness:
  "getitem LAUNCHD_DOMAINS 2 = Inr ''GUI'' \<and>
   \<not> contains (exec_no_marker [''launchctl'', ''print'', target_of 501 ''GUI''])
         (''services = {'' @ [NL]) \<and>
   load_data_launchctl exec_no_marker 501 2 (jobs window_one) = Inl IndexError \<and>
   initialize_data exec_no_marker 501 2 window_one = window_one"
  using load_without_marker_raises [of 2 "''GUI''" exec_no_marker 501 "jobs window_one" window_one]
    getitem_GUI no_marker_example
  by (simp add: target_GUI)

text \<open>The claim as stated fails for that tool: its output for \<^verbatim>\<open>gui/501\<close> has no
  marker, and the load raises instead of returning the empty Snapshot; in
  \<^verbatim>\<open>__init__\<close> nothing catches the error.\<close>

theorem empty_domain_load_raises:
  "\<not> contains (exec_no_marker [''launchctl'', ''print'', ''gui/501'']) (''services = {'' @ [NL]) \<and>
   load_data_launchctl exec_no_marker 501 2 Map.empty = Inl IndexError \<and>
   init exec_no_marker 501 2 = Inl IndexError"
proof -
  have "services_of (exec_no_marker [''launchctl'', ''print'', ''gui/501'']) = Inl IndexError"
    using no_marker_example unfolding contains_def by (rule services_of_no_marker)
  then have "load_data_launchctl exec_no_marker 501 2 Map.empty = Inl IndexError"
    by (simp add: load_data_launchctl_def getitem_GUI target_GUI)
  then show ?thesis
    using no_marker_example by (simp add: init_def)
qed

subsection \<open>Absolute paths\<close>

lemma getitem_System: "getitem LAUNCHD_DOMAINS 1 = Inr ''System''"
  by (simp add: getitem_def LAUNCHD_DOMAINS_def)

lemma lower_System: "lower ''System'' = ''system''"
  by code_simp

lemma target_System: "target_of uid ''System'' = ''system''"
  by (simp add: target_of_def lower_System)

lemma paths_one: "findall ''path'' detail_one = [''/Library/LaunchAgents/com.a.one.plist'']"
  by code_simp

lemma states_one: "findall ''state'' detail_one = [''running'']"
  by code_simp

lemma services_three: "services_of (exec_three [''launchctl'', ''print'', ''system'']) = Inr services_three"
  by code_simp

lemma labels_three: "listed_labels services_three = [''com.b.two'', ''com.rel'', ''com.nopath'']"
  by code_simp

lemma rows_three:
  "rows_of exec_three ''system'' ''com.b.two'' = [job_two]"
  "rows_of exec_three ''system'' ''com.rel'' = []"
  "rows_of exec_three ''system'' ''com.nopath'' = []"
  by code_simp+

lemma paths_three:
  "findall ''path'' (details_of exec_three ''system'' ''com.rel'') = [''plists/com.rel.plist'']"
  "findall ''path'' (details_of exec_three ''system'' ''com.nopath'') = []"
  "findall ''state'' (details_of exec_three ''system'' ''com.b.two'') = []"
  by code_simp+

lemma load_three:
  "load_data_launchctl exec_three uid 1 jbs =
     Inr ([job_two],
          (\<lambda>lbl. if lbl \<in> set [''com.b.two'', ''com.rel'', ''com.nopath'']
                 then Some (details_of exec_three ''system'' lbl) else jbs lbl))"
  using load_data_launchctl_eq [of 1 "''System''" exec_three uid services_three jbs]
  unfolding target_System
  by (simp add: getitem_System services_three labels_three rows_three)

text \<open>
  Claim C4. Every row of every Snapshot that \<^verbatim>\<open>load_data_launchctl\<close> returns has a
  path that starts with \<^verbatim>\<open>/\<close>; and a label whose reported path, the first match of
  the path pattern in its detail text, does not start with \<^verbatim>\<open>/\<close> has no row in the
  Snapshot.
\<close>

theorem snapshot_paths_absolute:
  assumes "load_data_launchctl exec uid idx jbs = Inr (snap, jbs')"
  shows "(\<forall>d\<in>set snap. prefix ''/'' (path d)) \<and>
         (\<forall>name lbl p ps.
            getitem LAUNCHD_DOMAINS idx = Inr name \<and>
            findall ''path'' (details_of exec (target_of uid name) lbl) = p # ps \<and>
            \<not> prefix ''/'' p \<longrightarrow> lbl \<notin> label ` set snap)"
proof -
  from assms obtain name services where
    name: "getitem LAUNCHD_DOMAINS idx = Inr name" and
    services: "services_of (exec [''launchctl'', ''print'', target_of uid name]) = Inr services"
    by (rule load_data_launchctl_cases)
  from load_data_launchctl_eq [of idx name exec uid services jbs, OF name services] assms
  have snap: "snap = concat (map (rows_of exec (target_of uid name)) (listed_labels services))"
    by simp
  have row: "\<exists>ps. findall ''path'' (details_of exec (target_of uid name) (label d)) = path d # ps
               \<and> prefix ''/'' (path d)" if "d \<in> set snap" for d
  proof -
    from that snap obtain lbl where d: "d \<in> set (rows_of exec (target_of uid name) lbl)"
      by auto
    from rows_of_label [OF d] rows_of_path [OF d] show ?thesis
      by simp
  qed
  have "prefix ''/'' (path d)" if "d \<in> set snap" for d
    using row [OF that] by blast
  moreover have "lbl \<notin> label ` set snap"
    if "getitem LAUNCHD_DOMAINS idx = Inr name'"
      and "findall ''path'' (details_of exec (target_of uid name') lbl) = p # ps"
      and "\<not> prefix ''/'' p" for name' lbl p ps
  proof
    assume "lbl \<in> label ` set snap"
    then obtain d where d: "d \<in> set snap" and lbl: "label d = lbl"
      by auto
    from that(1) name have "name' = name"
      by simp
    with row [OF d] lbl that(2,3) show False
      by auto
  qed
  ultimately show ?thesis
    by blast
qed

text \<open>
  The theorem at the system domain of the three-job tool: the row of \<^verbatim>\<open>com.b.two\<close> has
  an absolute path, and \<^verbatim>\<open>com.rel\<close>, whose path is relative, has no row.
\<close>

theorem snapshot_paths_absolute_witness:
  "map_sum id fst (load_data_launchctl exec_three 0 1 Map.empty) = Inr [job_two] \<and>
   prefix ''/'' (path job_two) \<and>
   getitem LAUNCHD_DOMAINS 1 = Inr ''System'' \<and>
   findall ''path'' (details_of exec_three (target_of 0 ''System'') ''com.rel'')
     = [''plists/com.rel.plist''] \<and>
   \<not> prefix ''/'' ''plists/com.rel.plist'' \<and>
   ''com.rel'' \<notin> label ` set [job_two]"
  using snapshot_paths_absolute [where exec = exec_three and uid = 0 and idx = 1
      and jbs = Map.empty, OF load_three]
  by (simp add: load_three getitem_System target_System paths_three)

subsection \<open>Parse omissions, the cache, the scenario\<close>

lemma services_of_one: "services_of listing_one = Inr services_one"
  by code_simp

lemma labels_of_one: "listed_labels services_one = [''com.a.one'']"
  by code_simp

lemma details_three:
  "details_of exec_three ''system'' ''com.rel'' = detail_rel"
  by (simp add: details_of_def exec_three_def)

text \<open>
  Claim C7. When the domain is one of \<^verbatim>\<open>LAUNCHD_DOMAINS\<close> and its output has a services
  block, the load returns a Snapshot, whatever the detail texts are. A label whose detail
  text has no match of the path pattern has no row in it. The state of every row is the
  first match of the state pattern in the detail text of its label, and the empty string
  when there is none. Every listed label whose first path match is absolute has its row,
  with that path and that state.
\<close>

theorem parse_omissions:
  assumes "getitem LAUNCHD_DOMAINS idx = Inr name"
      and "services_of (exec [''launchctl'', ''print'', target_of uid name]) = Inr services"
  shows "\<exists>snap jbs'.
           load_data_launchctl exec uid idx jbs = Inr (snap, jbs') \<and>
           (\<forall>lbl. findall ''path'' (details_of exec (target_of uid name) lbl) = []
              \<longrightarrow> lbl \<notin> label ` set snap) \<and>
           (\<forall>d\<in>set snap.
              state d = first_or_empty
                (findall ''state'' (details_of exec (target_of uid name) (label d)))) \<and>
           (\<forall>lbl\<in>set (listed_labels services). \<forall>p ps.
              findall ''path'' (details_of exec (target_of uid name) lbl) = p # ps \<and>
              prefix ''/'' p \<longrightarrow>
              \<lparr>label = lbl, path = p,
               state = first_or_empty
                 (findall ''state'' (details_of exec (target_of uid name) lbl))\<rparr> \<in> set snap)"
proof -
  let ?t = "target_of uid name"
  let ?snap = "concat (map (rows_of exec ?t) (listed_labels services))"
  have no_path: "lbl \<notin> label ` set ?snap"
    if "findall ''path'' (details_of exec ?t lbl) = []" for lbl
  proof
    assume "lbl \<in> label ` set ?snap"
    then obtain d lbl' where d: "d \<in> set (rows_of exec ?t lbl')" and "label d = lbl"
      by auto
    with rows_of_label [OF d] have "d \<in> set (rows_of exec ?t lbl)"
      by simp
    with that show False
      by (simp add: rows_of_def)
  qed
  have st: "state d = first_or_empty (findall ''state'' (details_of exec ?t (label d)))"
    if "d \<in> set ?snap" for d
  proof -
    from that obtain lbl where d: "d \<in> set (rows_of exec ?t lbl)"
      by auto
    from rows_of_label [OF d] rows_of_state [OF d] show ?thesis
      by simp
  qed
  have row: "\<lparr>label = lbl, path = p,
              state = first_or_empty (findall ''state'' (details_of exec ?t lbl))\<rparr> \<in> set ?snap"
    if "lbl \<in> set (listed_labels services)"
      and "findall ''path'' (details_of exec ?t lbl) = p # ps" and "prefix ''/'' p" for lbl p ps
  proof -
    from that(2,3) have "\<lparr>label = lbl, path = p,
        state = first_or_empty (findall ''state'' (details_of exec ?t lbl))\<rparr>
        \<in> set (rows_of exec ?t lbl)"
      by (simp add: rows_of_def)
    with that(1) show ?thesis
      by auto
  qed
  from no_path st row
    load_data_launchctl_eq [of idx name exec uid services jbs, OF assms]
  show ?thesis
    by blast
qed

text \<open>
  The theorem at the three-job tool: \<^verbatim>\<open>com.nopath\<close> has no path line and no row, and
  the row of \<^verbatim>\<open>com.b.two\<close>, whose detail text has no state line, has the empty state.
\<close>

theorem parse_omissions_witness:
  "getitem LAUNCHD_DOMAINS 1 = Inr ''System'' \<and>
   services_of (exec_three [''launchctl'', ''print'', target_of 0 ''System'']) = Inr services_three \<and>
   map_sum id fst (load_data_launchctl exec_three 0 1 Map.empty) = Inr [job_two] \<and>
   findall ''path'' (details_of exec_three (target_of 0 ''System'') ''com.nopath'') = [] \<and>
   ''com.nopath'' \<notin> label ` set [job_two] \<and>
   findall ''state'' (details_of exec_three (target_of 0 ''System'') (label job_two)) = [] \<and>
   state job_two = []"
  using parse_omissions [of 1 "''System''" exec_three 0 services_three Map.empty]
  by (simp add: load_three getitem_System target_System paths_three services_three job_two_def)

text \<open>
  Claim C3, as amended. The claim reads: after a load the cache \<^verbatim>\<open>self.jobs\<close> holds
  entries only for the labels of that load's listing. The code empties the dictionary in
  \<^verbatim>\<open>__init__\<close> only; a load stores into the dictionary it finds. What holds: after a
  load the cache maps every label of this listing to the detail text of this load, and
  every other label to what it was mapped to before the load (the cache is merged into,
  not rebuilt); \<^verbatim>\<open>initialize_data\<close> leaves exactly that cache in the window.
\<close>

theorem cache_is_merged:
  assumes "getitem LAUNCHD_DOMAINS idx = Inr name"
      and "services_of (exec [''launchctl'', ''print'', target_of uid name]) = Inr services"
  shows "\<exists>snap jbs'.
           load_data_launchctl exec uid idx jbs = Inr (snap, jbs') \<and>
           (\<forall>lbl\<in>set (listed_labels services).
              jbs' lbl = Some (details_of exec (target_of uid name) lbl)) \<and>
           (\<forall>lbl. lbl \<notin> set (listed_labels services) \<longrightarrow> jbs' lbl = jbs lbl) \<and>
           jobs (initialize_data exec uid idx (w\<lparr>jobs := jbs\<rparr>)) = jbs'"
  using load_data_launchctl_eq [of idx name exec uid services jbs, OF assms]
  by (simp add: initialize_data_def Let_def)

text \<open>
  The theorem at a refresh of the scenario's window from the three-job tool: the new
  label \<^verbatim>\<open>com.rel\<close> is cached, and the entry of \<^verbatim>\<open>com.a.one\<close>, which the new listing
  does not have, is still there.
\<close>

theorem cache_is_merged_witness:
  "getitem LAUNCHD_DOMAINS 1 = Inr ''System'' \<and>
   services_of (exec_three [''launchctl'', ''print'', target_of 0 ''System'']) = Inr services_three \<and>
   listed_labels services_three = [''com.b.two'', ''com.rel'', ''com.nopath''] \<and>
   jobs window_one ''com.a.one'' = Some detail_one \<and>
   jobs (initialize_data exec_three 0 1 window_one) ''com.rel'' = Some detail_rel \<and>
   jobs (initialize_data exec_three 0 1 window_one) ''com.a.one'' = Some detail_one"
  using cache_is_merged [of 1 "''System''" exec_three 0 services_three "jobs window_one" window_one]
  by (simp add: load_three getitem_System target_System services_three labels_three
      initialize_data_def window_one_def details_three)

lemma services_empty: "services_of (exec_empty args) = Inr []"
  by code_simp

lemma labels_empty: "listed_labels [] = []"
  by code_simp

text \<open>
  The claim as stated fails at a refresh of the scenario's window from the tool with the
  empty services block: the listing has no label and the new Snapshot is empty, yet the
  cache still holds the detail text of \<^verbatim>\<open>com.a.one\<close>.
\<close>

theorem stale_entry_survives_refresh:
  "services_of (exec_empty [''launchctl'', ''print'', target_of 501 ''GUI'']) = Inr [] \<and>
   listed_labels [] = [] \<and>
   snapshot (initialize_data exec_empty 501 2 window_one) = [] \<and>
   jobs (initialize_data exec_empty 501 2 window_one) ''com.a.one'' = Some detail_one"
  using load_data_launchctl_eq [of 2 "''GUI''" exec_empty 501 "[]" "jobs window_one"]
  by (simp add: getitem_GUI services_empty labels_empty initialize_data_def snapshot_def
      window_one_def)

text \<open>
  Claim C6. For every domain of \<^verbatim>\<open>LAUNCHD_DOMAINS\<close> and every user id: when the tool
  prints the listing \<^verbatim>\<open>"services = {\n\t1\t-\tcom.a.one\n\t}\n"\<close> for the domain and the
  detail text \<^verbatim>\<open>"\tpath = /Library/LaunchAgents/com.a.one.plist\n\tstate = running\n"\<close>
  for the label, the load returns exactly the one row with label \<^verbatim>\<open>com.a.one\<close>, that
  path and the state \<^verbatim>\<open>running\<close>.
\<close>

theorem scenario_one_job:
  assumes "getitem LAUNCHD_DOMAINS idx = Inr name"
      and "exec [''launchctl'', ''print'', target_of uid name] = listing_one"
      and "exec [''launchctl'', ''print'', target_of uid name @ ''/com.a.one''] = detail_one"
  shows "\<exists>jbs'. load_data_launchctl exec uid idx jbs =
           Inr ([\<lparr>label = ''com.a.one'', path = ''/Library/LaunchAgents/com.a.one.plist'',
                   state = ''running''\<rparr>], jbs')"
proof -
  have "rows_of exec (target_of uid name) ''com.a.one'' =
          [\<lparr>label = ''com.a.one'', path = ''/Library/LaunchAgents/com.a.one.plist'',
             state = ''running''\<rparr>]"
    using assms(3)
    by (simp add: rows_of_def details_of_def paths_one states_one first_or_empty_def)
  with load_data_launchctl_eq [of idx name exec uid _ jbs, OF assms(1)] assms(2)
  show ?thesis
    by (simp add: services_of_one labels_of_one)
qed

text \<open>
  The theorem at the GUI domain of user 501.
\<close>

theorem scenario_one_job_witness:
  "getitem LAUNCHD_DOMAINS 2 = Inr ''GUI'' \<and>
   exec_one [''launchctl'', ''print'', target_of 501 ''GUI''] = listing_one \<and>
   exec_one [''launchctl'', ''print'', target_of 501 ''GUI'' @ ''/com.a.one''] = detail_one \<and>
   map_sum id fst (load_data_launchctl exec_one 501 2 Map.empty) = Inr [job_one]"
proof -
  have e: "exec_one [''launchctl'', ''print'', target_of 501 ''GUI''] = listing_one"
    "exec_one [''launchctl'', ''print'', target_of 501 ''GUI'' @ ''/com.a.one''] = detail_one"
    by (simp_all add: target_GUI exec_one_def)
  from scenario_one_job [OF getitem_GUI e, of Map.empty] e show ?thesis
    by (auto simp: getitem_GUI job_one_def)
qed

subsection \<open>Sorting and sequences of calls\<close>

lemma keys_of_map:
  "(\<And>x. x \<in> set xs \<Longrightarrow> key x = Inr (f x)) \<Longrightarrow> keys_of key xs = Inr (map f xs)"
  by (induction xs) simp_all

lemma insort_decorated:
  "\<forall>p\<in>set ps. fst p = f (snd p) \<Longrightarrow>
     map snd (insort_key fst (f x, x) ps) = insort_key f x (map snd ps)"
  by (induction ps) auto

lemma undecorate: "map snd (sort_key fst (zip (map f xs) xs)) = sort_key f xs"
proof (induction xs)
  case Nil
  show ?case by simp
next
  case (Cons x xs)
  have "\<forall>p\<in>set (sort_key fst (zip (map f xs) xs)). fst p = f (snd p)"
    by (auto simp: in_set_zip)
  then show ?case
    by (simp add: insort_decorated Cons.IH)
qed

lemma sorted_py_eq:
  assumes "\<And>x. x \<in> set xs \<Longrightarrow> key x = Inr (f x)"
  shows "sorted_py key rv xs = Inr (if rv then rev (sort_key f (rev xs)) else sort_key f xs)"
proof -
  have keys: "keys_of key xs = Inr (map f xs)"
    by (rule keys_of_map) (rule assms)
  have "rev (zip (map f xs) xs) = zip (map f (rev xs)) (rev xs)"
    using zip_rev [of "map f xs" xs] by (simp add: rev_map)
  then have "map snd (rev (sort_key fst (rev (zip (map f xs) xs))))
               = rev (map snd (sort_key fst (zip (map f (rev xs)) (rev xs))))"
    by (simp only: rev_map)
  also have "\<dots> = rev (sort_key f (rev xs))"
    by (simp only: undecorate)
  finally show ?thesis
    by (simp add: sorted_py_def keys Let_def undecorate)
qed

lemma itemgetter_column:
  "- 3 \<le> ncol \<Longrightarrow> ncol < 3 \<Longrightarrow> itemgetter ncol d = Inr (column ncol d)"
  by (simp add: itemgetter_def getitem_def column_def)

lemma sort_model_eq:
  assumes "- 3 \<le> ncol" and "ncol < 3"
  shows "sort_model ncol order w =
           Inr (w\<lparr>heap := (heap w)(arraydata w :=
                     (if order = DescendingOrder
                      then rev (sort_key (column ncol) (rev (view w)))
                      else sort_key (column ncol) (view w))),
                  last_saved_sort_column := Some ncol,
                  last_saved_sort_order := Some order\<rparr>)"
  using sorted_py_eq [of "view w" "itemgetter ncol" "column ncol" "order = DescendingOrder"]
    itemgetter_column [OF assms]
  by (simp add: sort_model_def view_def)

text \<open>
  Claim C9. For a column index that \<^verbatim>\<open>itemgetter\<close> accepts, \<^verbatim>\<open>sort\<close> returns, and
  it is stable: for every value \<open>k\<close>, the rows whose column is \<open>k\<close> stand in the view
  after the sort in the order they had before. The view after the sort is a permutation
  of the view before and is sorted by the column, ascending or descending as asked.
  Sorting again by the same column in the same direction changes nothing.
\<close>

theorem sort_stable:
  assumes "- 3 \<le> ncol" and "ncol < 3"
  shows "\<exists>w'. sort_model ncol order w = Inr w' \<and>
           (\<forall>k. filter (\<lambda>d. itemgetter ncol d = Inr k) (view w')
                = filter (\<lambda>d. itemgetter ncol d = Inr k) (view w)) \<and>
           mset (view w') = mset (view w) \<and>
           (\<exists>ks. keys_of (itemgetter ncol) (view w') = Inr ks \<and>
                 (if order = DescendingOrder then sorted (rev ks) else sorted ks)) \<and>
           sort_model ncol order w' = Inr w'"
proof -
  let ?f = "column ncol"
  let ?xs = "view w"
  let ?ys = "if order = DescendingOrder then rev (sort_key ?f (rev ?xs)) else sort_key ?f ?xs"
  let ?w' = "w\<lparr>heap := (heap w)(arraydata w := ?ys),
               last_saved_sort_column := Some ncol, last_saved_sort_order := Some order\<rparr>"
  have key: "itemgetter ncol d = Inr k \<longleftrightarrow> ?f d = k" for d k
    by (simp add: itemgetter_column [OF assms])
  have v: "view ?w' = ?ys"
    by (simp add: view_def)
  have st: "filter (\<lambda>d. ?f d = k) ?ys = filter (\<lambda>d. ?f d = k) ?xs" for k
  proof (cases "order = DescendingOrder")
    case True
    have "filter (\<lambda>d. ?f d = k) (rev (sort_key ?f (rev ?xs)))
            = rev (filter (\<lambda>d. ?f d = k) (sort_key ?f (rev ?xs)))"
      by (simp add: rev_filter)
    also have "\<dots> = rev (filter (\<lambda>d. ?f d = k) (rev ?xs))"
      by (simp only: sort_key_stable)
    also have "\<dots> = filter (\<lambda>d. ?f d = k) ?xs"
      by (simp add: rev_filter)
    finally show ?thesis
      using True by simp
  next
    case False
    then show ?thesis
      by (simp add: sort_key_stable)
  qed
  have ms: "mset ?ys = mset ?xs"
    by simp
  have keys: "keys_of (itemgetter ncol) ?ys = Inr (map ?f ?ys)"
    by (rule keys_of_map) (rule itemgetter_column [OF assms])
  have srt: "if order = DescendingOrder then sorted (rev (map ?f ?ys)) else sorted (map ?f ?ys)"
    by (simp add: rev_map)
  have twice: "(if order = DescendingOrder then rev (sort_key ?f (rev ?ys)) else sort_key ?f ?ys) = ?ys"
    by (simp add: sort_key_id_if_sorted)
  have again: "sort_model ncol order ?w' = Inr ?w'"
    unfolding sort_model_eq [OF assms, of order ?w'] v twice
    by simp
  from sort_model_eq [OF assms, of order w] v st ms keys srt again show ?thesis
    by (auto simp: key)
qed

lemma sorted_three:
  "sorted_py (itemgetter 2) True [job_three, job_two, job_one] = Inr [job_three, job_one, job_two]"
  "sorted_py (itemgetter 2) True [job_three, job_one, job_two] = Inr [job_three, job_one, job_two]"
  by code_simp+

lemma sort_three:
  "sort_model 2 DescendingOrder window_three = Inr window_three_sorted"
  by (simp add: sort_model_def window_three_def window_three_sorted_def sorted_three fun_eq_iff)

lemma views_three:
  "view window_three = [job_three, job_two, job_one]"
  "view window_three_sorted = [job_three, job_one, job_two]"
  "snapshot window_three = [job_three, job_two, job_one]"
  "well_formed window_three"
  by (simp_all add: view_def snapshot_def well_formed_def window_three_def window_three_sorted_def)

text \<open>
  The theorem at a descending sort by state of the three-row window: the two running jobs
  keep their order, \<^verbatim>\<open>com.c.three\<close> before \<^verbatim>\<open>com.a.one\<close>.
\<close>

theorem sort_stable_witness:
  "(- 3 :: int) \<le> 2 \<and> (2 :: int) < 3 \<and>
   sort_model 2 DescendingOrder window_three = Inr window_three_sorted \<and>
   view window_three = [job_three, job_two, job_one] \<and>
   view window_three_sorted = [job_three, job_one, job_two] \<and>
   filter (\<lambda>d. itemgetter 2 d = Inr ''running'') (view window_three_sorted)
     = filter (\<lambda>d. itemgetter 2 d = Inr ''running'') (view window_three) \<and>
   sort_model 2 DescendingOrder window_three_sorted = Inr window_three_sorted"
  using sort_stable [of 2 DescendingOrder window_three]
  by (simp add: sort_three views_three)

text \<open>Well-formed windows are the ones the program has: \<^verbatim>\<open>__init__\<close> builds one, and
  a refresh and every filter and sort call keep it so.\<close>

lemma init_well_formed:
  "init exec uid idx = Inr w \<Longrightarrow> well_formed w \<and> view w = snapshot w"
  by (auto simp: init_def well_formed_def view_def snapshot_def split: sum.splits)

lemma initialize_data_well_formed:
  "well_formed w \<Longrightarrow>
     well_formed (initialize_data exec uid idx w) \<and>
     (initialize_data exec uid idx w = w \<or>
      view (initialize_data exec uid idx w) = snapshot (initialize_data exec uid idx w))"
  by (auto simp: initialize_data_def well_formed_def view_def snapshot_def Let_def
      split: sum.splits)

lemma step_frame:
  assumes "well_formed w" and "step c w = Inr w'"
  shows "well_formed w' \<and> data_all w' = data_all w \<and> snapshot w' = snapshot w"
proof (cases c)
  case (SetFilter x)
  with assms show ?thesis
    by (auto simp: well_formed_def snapshot_def on_search_changed_def Let_def)
next
  case (SetSort ncol order)
  with assms show ?thesis
    by (auto simp: well_formed_def snapshot_def sort_model_def split: sum.splits)
qed

text \<open>
  Claim C5. In a well-formed window, every sequence of filter and sort calls leaves the
  Snapshot, the contents of \<^verbatim>\<open>self.data_all\<close>, as it was; the run may stop at a sort
  that raises, and the Snapshot is untouched then too. The window stays well formed.
\<close>

theorem snapshot_untouched:
  assumes "well_formed w"
  shows "snapshot (fst (run calls w)) = snapshot w \<and>
         data_all (fst (run calls w)) = data_all w \<and>
         well_formed (fst (run calls w))"
  using assms
proof (induction calls arbitrary: w)
  case Nil
  then show ?case by simp
next
  case (Cons c calls)
  show ?case
  proof (cases "step c w")
    case (Inl e)
    with Cons.prems show ?thesis by simp
  next
    case (Inr w')
    from step_frame [OF Cons.prems Inr] Cons.IH [of w'] Inr show ?thesis
      by simp
  qed
qed

lemma run_three:
  "snapshot (fst (run [SetSort 0 AscendingOrder, SetFilter ''com.b'', SetSort 2 DescendingOrder]
      window_three)) = [job_three, job_two, job_one]"
  "view (fst (run [SetSort 0 AscendingOrder, SetFilter ''com.b'', SetSort 2 DescendingOrder]
      window_three)) = [job_two]"
  by code_simp+

text \<open>
  The theorem at a sort, a filter and another sort of the three-row window: the view
  shrinks to one row, the Snapshot still has the three rows in listing order.
\<close>

theorem snapshot_untouched_witness:
  "well_formed window_three \<and>
   snapshot window_three = [job_three, job_two, job_one] \<and>
   snapshot (fst (run [SetSort 0 AscendingOrder, SetFilter ''com.b'', SetSort 2 DescendingOrder]
      window_three)) = [job_three, job_two, job_one] \<and>
   view (fst (run [SetSort 0 AscendingOrder, SetFilter ''com.b'', SetSort 2 DescendingOrder]
      window_three)) = [job_two]"
  using snapshot_untouched [of window_three
      "[SetSort 0 AscendingOrder, SetFilter ''com.b'', SetSort 2 DescendingOrder]"]
  by (simp del: run.simps add: views_three run_three)

subsection \<open>Filtering\<close>

lemma keep_label: "contains_ci (label d) text \<Longrightarrow> keep text d"
  by (simp add: keep_def contains_ci_def)

lemma keep_only: "keep text d \<Longrightarrow> contains_ci (label d) text \<or> contains_ci (path d) text"
proof -
  assume "keep text d"
  moreover have "sublist (lower text) (lower (path d))" if "sublist text (lower (path d))"
    using map_mono_sublist [OF that, of lower_char] by (simp add: lower_def lower_char_idem o_def)
  ultimately show ?thesis
    by (auto simp: keep_def contains_ci_def)
qed

lemma keep_lower:
  "lower text = text \<Longrightarrow> keep text d \<longleftrightarrow> contains_ci (label d) text \<or> contains_ci (path d) text"
  by (auto simp: keep_def contains_ci_def)

lemma on_search_changed_view:
  "well_formed w \<Longrightarrow>
     view (on_search_changed text w) =
       (if text \<noteq> [] then filter (keep text) (snapshot w) else snapshot w)"
  by (simp add: on_search_changed_def view_def snapshot_def well_formed_def Let_def)

lemma on_search_changed_frame:
  "well_formed w \<Longrightarrow>
     well_formed (on_search_changed text w) \<and>
     snapshot (on_search_changed text w) = snapshot w"
  by (simp add: on_search_changed_def snapshot_def well_formed_def Let_def)

text \<open>
  Claim C2, as amended. The claim reads: for a non-empty text the view is exactly the rows
  whose label contains the text without regard to case or whose path contains the text
  as it stands. The code lower-cases the path before it looks for the text, so the path
  is not searched as it stands. What holds, for a non-empty text in a well-formed window:
  the view is a subsequence of the Snapshot, in Snapshot order; it has every row whose
  label contains the text without regard to case; it has only rows whose label or path
  contains the text without regard to case; and for a text without upper-case letters
  it is exactly the rows whose label or path contains the text without regard to case.
  Which rows a text with upper-case letters finds by their path is left open.
\<close>

theorem filter_view:
  assumes "text \<noteq> []" and "well_formed w"
  shows "subseq (view (on_search_changed text w)) (snapshot w) \<and>
         (\<forall>d\<in>set (snapshot w). contains_ci (label d) text
            \<longrightarrow> d \<in> set (view (on_search_changed text w))) \<and>
         (\<forall>d\<in>set (view (on_search_changed text w)).
            contains_ci (label d) text \<or> contains_ci (path d) text) \<and>
         (lower text = text \<longrightarrow>
            view (on_search_changed text w) =
              filter (\<lambda>d. contains_ci (label d) text \<or> contains_ci (path d) text) (snapshot w))"
proof -
  have v: "view (on_search_changed text w) = filter (keep text) (snapshot w)"
    using assms by (simp add: on_search_changed_view)
  have "filter (keep text) xs =
          filter (\<lambda>d. contains_ci (label d) text \<or> contains_ci (path d) text) xs"
    if "lower text = text" for xs
    using keep_lower [OF that] by (simp cong: filter_cong)
  moreover have "subseq (filter (keep text) (snapshot w)) (snapshot w)"
    by (rule subseq_filter_left)
  ultimately show ?thesis
    using v by (auto simp: keep_label dest: keep_only)
qed

lemma views_one:
  "snapshot window_one = [job_one]"
  "well_formed window_one"
  by (simp_all add: snapshot_def well_formed_def window_one_def)

lemma filter_three:
  "view (on_search_changed ''com.b'' window_three) = [job_two]"
  "view (on_search_changed ''agents'' window_three) = [job_three, job_one]"
  "view (on_search_changed ''library'' window_one) = [job_one]"
  by code_simp+

lemma contains_examples:
  "\<not> contains (path job_one) ''library''"
  "\<not> contains_ci (label job_one) ''library''"
  "lower ''agents'' = ''agents''"
  by code_simp+

text \<open>
  The theorem at the text \<^verbatim>\<open>agents\<close> on the three-row window: the two jobs under
  \<^verbatim>\<open>/Library/LaunchAgents\<close> are shown.
\<close>

theorem filter_view_witness:
  "''agents'' \<noteq> [] \<and> well_formed window_three \<and> lower ''agents'' = ''agents'' \<and>
   snapshot window_three = [job_three, job_two, job_one] \<and>
   view (on_search_changed ''agents'' window_three) = [job_three, job_one] \<and>
   filter (\<lambda>d. contains_ci (label d) ''agents'' \<or> contains_ci (path d) ''agents'')
     (snapshot window_three) = [job_three, job_one]"
proof -
  have ne: "''agents'' \<noteq> []"
    by simp
  from filter_view [OF ne views_three(4)] contains_examples(3)
  have "view (on_search_changed ''agents'' window_three) =
          filter (\<lambda>d. contains_ci (label d) ''agents'' \<or> contains_ci (path d) ''agents'')
            (snapshot window_three)"
    by blast
  then have "filter (\<lambda>d. contains_ci (label d) ''agents'' \<or> contains_ci (path d) ''agents'')
               (snapshot window_three) = [job_three, job_one]"
    by (simp only: filter_three)
  with ne views_three(3,4) contains_examples(3) filter_three(2) show ?thesis
    by (intro conjI)
qed

text \<open>
  The claim as stated fails at the text \<^verbatim>\<open>library\<close> on the scenario's window: the
  label of the only row does not contain the text, with or without regard to case, and
  its path \<^verbatim>\<open>/Library/LaunchAgents/com.a.one.plist\<close> does not contain it as it stands,
  so the claim has the view empty; the code finds the text in the lower-cased path and
  shows the row.
\<close>

theorem lower_case_text_matches_path:
  "''library'' \<noteq> [] \<and> snapshot window_one = [job_one] \<and>
   \<not> contains_ci (label job_one) ''library'' \<and>
   \<not> contains (path job_one) ''library'' \<and>
   view (on_search_changed ''library'' window_one) = [job_one]"
  by (simp add: views_one filter_three contains_examples)

text \<open>
  Claim C8. In a well-formed window, a filter with any text followed by a filter with the
  empty text shows the full Snapshot, and the Snapshot is the one before the two calls.
\<close>

theorem clearing_restores:
  assumes "well_formed w"
  shows "view (on_search_changed [] (on_search_changed x w)) = snapshot w \<and>
         snapshot (on_search_changed [] (on_search_changed x w)) = snapshot w"
  using on_search_changed_frame [OF assms, of x]
  by (simp add: on_search_changed_view on_search_changed_frame)

text \<open>
  The theorem at the text \<^verbatim>\<open>com.b\<close> on the three-row window.
\<close>

theorem clearing_restores_witness:
  "well_formed window_three \<and>
   view (on_search_changed ''com.b'' window_three) = [job_two] \<and>
   view (on_search_changed [] (on_search_changed ''com.b'' window_three))
     = [job_three, job_two, job_one] \<and>
   snapshot window_three = [job_three, job_two, job_one]"
  using clearing_restores [of window_three "''com.b''"]
  by (simp add: views_three filter_three)

text \<open>
  Claim C10. In a well-formed window, a filter call after a sort computes the view from
  the Snapshot in listing order: the view is the filtered Snapshot (the whole Snapshot
  for the empty text), the same view as without the sort, so the order of the sort is
  gone.
\<close>

theorem filter_discards_sort:
  assumes "well_formed w" and "sort_model ncol order w = Inr w'"
  shows "view (on_search_changed text w') =
           (if text = [] then snapshot w else filter (keep text) (snapshot w)) \<and>
         view (on_search_changed text w') = view (on_search_changed text w) \<and>
         view (on_search_changed [] w') = snapshot w"
proof -
  from assms have "step (SetSort ncol order) w = Inr w'"
    by simp
  from step_frame [OF assms(1) this] assms(1) show ?thesis
    by (simp add: on_search_changed_view)
qed

text \<open>
  The theorem at the three-row window sorted by state, descending: the sorted view has
  \<^verbatim>\<open>com.a.one\<close> before \<^verbatim>\<open>com.b.two\<close>, and after a filter with the empty text the view
  is in listing order again.
\<close>

theorem filter_discards_sort_witness:
  "well_formed window_three \<and>
   sort_model 2 DescendingOrder window_three = Inr window_three_sorted \<and>
   view window_three_sorted = [job_three, job_one, job_two] \<and>
   snapshot window_three = [job_three, job_two, job_one] \<and>
   view (on_search_changed [] window_three_sorted) = [job_three, job_two, job_one] \<and>
   view (on_search_changed ''agents'' window_three_sorted) = [job_three, job_one]"
proof -
  note t = filter_discards_sort [OF views_three(4) sort_three]
  from t [of "[]"]
  have "view (on_search_changed [] window_three_sorted) = [job_three, job_two, job_one]"
    by (simp add: views_three)
  moreover from t [of "''agents''"]
  have "view (on_search_changed ''agents'' window_three_sorted) = [job_three, job_one]"
    unfolding filter_three by (elim conjE)
  ultimately show ?thesis
    using views_three sort_three by (intro conjI)
qed

end
